theory Spec2Isabelle
  imports Complex_Main "HOL-Library.Multiset" "HOL-Library.List_Lexorder" "HOL-Library.Char_ord"
    "HOL-Library.Log_Nat"
begin

section \<open>Outage notification script: \<open>src/scripts/slack-notification.ts\<close>\<close>

text \<open>
  The script reads a log of health checks, reconstructs the outages that are still going
  on, drops resolved services from a ledger of reported outages, and posts the long
  outages that have not been reported yet to a webhook.

  Conventions of the embedding:
  \<^item> an instant (\<open>Date\<close>) is its \<open>getTime()\<close> value, an \<open>int\<close> of milliseconds since the
    epoch; a timestamp string of the log is the instant \<open>new Date(timestamp)\<close> denotes
    (invalid dates, whose time is NaN, are outside the model);
  \<^item> \<open>number\<close> values that the script only subtracts and compares are \<open>int\<close>: they are
    whole, and exact as long as they stay below \<open>2 ^ 53\<close> in absolute value; where the
    script divides, a \<open>number\<close> is the real that a binary64 value denotes and the
    quotient is rounded;
  \<^item> a JavaScript \<open>Map\<close> is an association list in insertion order;
  \<^item> a plain object used as a dictionary is an association list of its own properties;
    reading a property that is not its own falls back to \<open>Object.prototype\<close>;
  \<^item> the clock, the log, the ledger file and the webhook are parameters of the run, and
    what the run does to the outside world is returned as a record.
\<close>

subsection \<open>Data\<close>

text \<open>
  Modelled from the spec: the declaration \<open>StatusCheck\<close> of \<open>src/lib/types\<close> is
  imported by the script but is not part of the sources at hand. The spec's data model
  gives an observation as a timestamp with a sequence of service checks, each a service
  name, a status that is one of \<open>ok\<close> and \<open>error\<close>, and an optional error text. The
  fields below are the ones the script reads; \<open>check_error\<close> is the field \<open>error\<close>.
\<close>

datatype Status = ok | error

record ServiceCheck =
  check_service :: string
  check_status :: Status
  check_error :: "string option"

record StatusCheck =
  timestamp :: int
  checks :: "ServiceCheck list"

text \<open>
  The entries of the two maps that \<open>findCurrentOutages\<close> builds, \<open>serviceStatus\<close> and
  \<open>outageMap\<close>, with the fields of its object literals; \<open>error_text\<close> is the field
  \<open>error\<close> of an outage.
\<close>

record ServiceState =
  state_status :: Status
  since :: int
  state_error :: "string option"

record Outage =
  service :: string
  startTime :: int
  duration :: int
  error_text :: string
  isOngoing :: bool

subsection \<open>JavaScript \<open>Map\<close>\<close>

text \<open>
  A \<open>Map\<close> keeps its keys in insertion order: \<open>set\<close> on a key that is present replaces
  the value where it stands, \<open>set\<close> on a new key appends, \<open>delete\<close> removes the key.
\<close>

type_synonym ('k, 'v) js_map = "('k \<times> 'v) list"

definition map_has :: "('k, 'v) js_map \<Rightarrow> 'k \<Rightarrow> bool" where
  "map_has m k = (k \<in> set (map fst m))"

definition map_get :: "('k, 'v) js_map \<Rightarrow> 'k \<Rightarrow> 'v option" where
  "map_get m k = map_of m k"

fun map_set :: "'k \<Rightarrow> 'v \<Rightarrow> ('k, 'v) js_map \<Rightarrow> ('k, 'v) js_map" where
  "map_set k v [] = [(k, v)]"
| "map_set k v (p # m) = (if fst p = k then (k, v) # m else p # map_set k v m)"

definition map_delete :: "'k \<Rightarrow> ('k, 'v) js_map \<Rightarrow> ('k, 'v) js_map" where
  "map_delete k m = filter (\<lambda>p. fst p \<noteq> k) m"

definition map_values :: "('k, 'v) js_map \<Rightarrow> 'v list" where
  "map_values m = map snd m"

subsection \<open>\<open>formatDuration\<close>\<close>

text \<open>
  A \<open>number\<close> is an IEEE 754 binary64 value. A finite one is modelled by the real it
  denotes, and an arithmetic operation by the exact operation followed by rounding to
  the nearest binary64 value, a tie going to the even significand. The exponent range
  is not bounded in the model: it agrees with binary64 on the normal range, from
  \<open>2 powi (-1022)\<close> up to \<open>2 powi 1024\<close> in absolute value; NaN, the infinities,
  subnormal results and overflow are outside the model.
\<close>

definition round_half_even :: "real \<Rightarrow> int" where
  "round_half_even y =
     (let n = \<lfloor>y\<rfloor>; f = y - of_int n in
      if f < 1 / 2 then n else if 1 / 2 < f then n + 1 else if even n then n else n + 1)"

text \<open>The binary exponent \<open>e\<close> of a positive real: \<open>2 powi e \<le> x < 2 powi (e + 1)\<close>.\<close>

definition exponent :: "real \<Rightarrow> int" where
  "exponent x =
     (if 1 \<le> x then int (floorlog 2 (nat \<lfloor>x\<rfloor>)) - 1
      else - int (floorlog 2 (nat (\<lceil>1 / x\<rceil> - 1))))"

text \<open>Rounding to 53 significant bits.\<close>

definition to_double :: "real \<Rightarrow> real" where
  "to_double x =
     (if x = 0 then 0
      else let ulp = 2 powi (exponent \<bar>x\<bar> - 52)
           in sgn x * (of_int (round_half_even (\<bar>x\<bar> / ulp)) * ulp))"

text \<open>
  \<open>Math.round\<close> gives the nearest integer, a tie going towards plus infinity, and
  \<open>Math.floor\<close> the greatest integer below or equal; both are exact.
\<close>

definition Math_round :: "real \<Rightarrow> int" where
  "Math_round x = \<lfloor>x + 1 / 2\<rfloor>"

definition Math_floor :: "real \<Rightarrow> int" where
  "Math_floor x = \<lfloor>x\<rfloor>"

definition digit_char :: "nat \<Rightarrow> char" where
  "digit_char d = ''0123456789'' ! d"

function digits :: "nat \<Rightarrow> string" where
  "digits n = (if n < 10 then [digit_char n] else digits (n div 10) @ [digit_char (n mod 10)])"
  by pat_completeness auto
termination
  by (relation "measure id") auto

declare digits.simps [simp del]

text \<open>
  \<open>Number.prototype.toString\<close> on an integer below \<open>10 ^ 21\<close> in absolute value, where
  the exponent notation starts.
\<close>

definition toString :: "int \<Rightarrow> string" where
  "toString i = (if i < 0 then CHR ''-'' # digits (nat (- i)) else digits (nat i))"

text \<open>\<open>String.prototype.padStart\<close> with a filler of one character.\<close>

definition padStart :: "nat \<Rightarrow> char \<Rightarrow> string \<Rightarrow> string" where
  "padStart n c s = replicate (n - length s) c @ s"

text \<open>
  The argument is the value of a finite \<open>number\<close>. The two divisions and the division
  by 60 of the hours are rounded; \<open>totalMinutes % 60\<close> is exact, and is \<open>mod\<close> since
  \<open>totalMinutes\<close> is at least 60 where it is taken.
\<close>

definition formatDuration :: "real \<Rightarrow> string" where
  "formatDuration milliseconds =
     (let totalMinutes = Math_round (to_double (to_double (milliseconds / 1000) / 60)) in
      if totalMinutes \<ge> 60 then
        (let hours = Math_floor (to_double (of_int totalMinutes / 60));
             minutes = totalMinutes mod 60
         in toString hours @ ''hr '' @ padStart 2 (CHR ''0'') (toString minutes) @ ''min'')
      else toString totalMinutes @ ''min'')"

subsection \<open>Decimal numerals\<close>

text \<open>
  What it means for a string to be the decimal numeral of a natural number: digits
  only, no leading zero except for zero itself, and the value read from left to right.
\<close>

definition is_digit :: "char \<Rightarrow> bool" where
  "is_digit c = (c \<in> set ''0123456789'')"

definition decimal_value :: "string \<Rightarrow> nat" where
  "decimal_value ds = foldl (\<lambda>a c. 10 * a + (of_char c - 48)) 0 ds"

definition is_decimal_of :: "string \<Rightarrow> nat \<Rightarrow> bool" where
  "is_decimal_of ds n =
     (ds \<noteq> [] \<and> list_all is_digit ds \<and> (hd ds = CHR ''0'' \<longrightarrow> ds = ''0'')
      \<and> decimal_value ds = n)"

subsection \<open>\<open>findCurrentOutages\<close>\<close>

text \<open>\<open>service.error || "Unknown error"\<close>: an absent or empty text is falsy.\<close>

definition error_or_unknown :: "string option \<Rightarrow> string" where
  "error_or_unknown e = (case e of None \<Rightarrow> ''Unknown error'' | Some s \<Rightarrow> if s = [] then ''Unknown error'' else s)"

type_synonym outage_state = "(string, Outage) js_map \<times> (string, ServiceState) js_map"

text \<open>
  The body of the inner loop, for one service of a check taken at \<open>checkTime\<close>. The
  state is the pair of \<open>outageMap\<close> and \<open>serviceStatus\<close>.
\<close>

definition process_service :: "int \<Rightarrow> outage_state \<Rightarrow> ServiceCheck \<Rightarrow> outage_state" where
  "process_service checkTime st svc =
     (let outageMap = fst st;
          serviceStatus = snd st;
          serviceName = check_service svc
      in case check_status svc of
           error \<Rightarrow>
             if \<not> map_has serviceStatus serviceName
                \<or> map_option state_status (map_get serviceStatus serviceName) = Some ok
             then
               (map_set serviceName
                  \<lparr>service = serviceName, startTime = checkTime, duration = 0,
                   error_text = error_or_unknown (check_error svc), isOngoing = True\<rparr>
                  outageMap,
                map_set serviceName
                  \<lparr>state_status = error, since = checkTime,
                   state_error = Some (error_or_unknown (check_error svc))\<rparr>
                  serviceStatus)
             else st
         | ok \<Rightarrow>
             if map_has serviceStatus serviceName
                \<and> map_option state_status (map_get serviceStatus serviceName) = Some error
             then
               (map_delete serviceName outageMap,
                map_set serviceName
                  \<lparr>state_status = ok, since = checkTime, state_error = None\<rparr>
                  serviceStatus)
             else st)"

text \<open>The body of the outer loop: every service of one check, in order.\<close>

definition process_check :: "outage_state \<Rightarrow> StatusCheck \<Rightarrow> outage_state" where
  "process_check st check = foldl (process_service (timestamp check)) st (checks check)"

text \<open>
  \<open>statusChecks.sort\<close> with the comparator \<open>a.time - b.time\<close>: \<open>Array.prototype.sort\<close> is
  stable, so checks with equal timestamps keep their order of arrival. \<open>sort_key\<close> is a
  stable sort as well.
\<close>

definition sort_checks :: "StatusCheck list \<Rightarrow> StatusCheck list" where
  "sort_checks statusChecks = sort_key timestamp statusChecks"

text \<open>The last loop stores \<open>now - startTime\<close> in every outage left in the map.\<close>

definition set_durations :: "int \<Rightarrow> (string, Outage) js_map \<Rightarrow> (string, Outage) js_map" where
  "set_durations now outageMap =
     map (\<lambda>(serviceName, outage). (serviceName, outage\<lparr>duration := now - startTime outage\<rparr>)) outageMap"

text \<open>\<open>now\<close> is the value of \<open>new Date()\<close> read after the replay.\<close>

definition findCurrentOutages :: "StatusCheck list \<Rightarrow> int \<Rightarrow> (string, Outage) js_map" where
  "findCurrentOutages statusChecks now =
     set_durations now (fst (foldl process_check ([], []) (sort_checks statusChecks)))"

subsection \<open>The ledger object\<close>

text \<open>
  \<open>reportedOutages\<close> is a plain object (\<open>Record<string, number>\<close>) parsed from JSON: the
  list of its own properties. \<open>obj[k]\<close> yields the own property when there is one, else
  the member of \<open>Object.prototype\<close> of that name when there is one (a function, or for
  \<open>__proto__\<close> the prototype object), else \<open>undefined\<close>.
\<close>

type_synonym js_object = "(string \<times> int) list"

datatype js_value = undefined | number int | inherited

definition object_prototype_keys :: "string list" where
  "object_prototype_keys =
     [''constructor'', ''hasOwnProperty'', ''isPrototypeOf'', ''propertyIsEnumerable'',
      ''toLocaleString'', ''toString'', ''valueOf'', ''__proto__'',
      ''__defineGetter__'', ''__defineSetter__'', ''__lookupGetter__'', ''__lookupSetter__'']"

definition obj_get :: "js_object \<Rightarrow> string \<Rightarrow> js_value" where
  "obj_get obj k =
     (case map_of obj k of
        Some v \<Rightarrow> number v
      | None \<Rightarrow> if k \<in> set object_prototype_keys then inherited else undefined)"

text \<open>Truthiness: \<open>undefined\<close> and the number 0 are falsy, functions and objects are truthy.\<close>

fun truthy :: "js_value \<Rightarrow> bool" where
  "truthy undefined = False"
| "truthy (number v) = (v \<noteq> 0)"
| "truthy inherited = True"

text \<open>\<open>for (const k in obj)\<close> visits the own properties: those of the prototype are not enumerable.\<close>

definition obj_keys :: "js_object \<Rightarrow> string list" where
  "obj_keys obj = map fst obj"

definition obj_delete :: "string \<Rightarrow> js_object \<Rightarrow> js_object" where
  "obj_delete k obj = filter (\<lambda>p. fst p \<noteq> k) obj"

text \<open>
  The own properties of an object are listed with the array indices first, in ascending
  order, and then the other names in the order of their creation. An array index is
  the decimal numeral of a natural number below \<open>2 ^ 32 - 1\<close>. A ledger as loaded is
  taken to be listed in this order.
\<close>

definition array_index :: "string \<Rightarrow> nat option" where
  "array_index k =
     (if is_decimal_of k (decimal_value k) \<and> decimal_value k < 2 ^ 32 - 1
      then Some (decimal_value k) else None)"

fun insert_index :: "nat \<Rightarrow> string \<Rightarrow> int \<Rightarrow> js_object \<Rightarrow> js_object" where
  "insert_index i k v [] = [(k, v)]"
| "insert_index i k v (p # obj) =
     (case array_index (fst p) of
        Some j \<Rightarrow> if j < i then p # insert_index i k v obj else (k, v) # p # obj
      | None \<Rightarrow> (k, v) # p # obj)"

text \<open>
  \<open>obj[k] = v\<close>. The script assigns only to names it has just read as falsy, which are
  own properties or names unknown to the prototype, so the assignment overwrites an own
  property where it stands or creates one, at its place in the order of the keys.
\<close>

definition obj_set :: "string \<Rightarrow> int \<Rightarrow> js_object \<Rightarrow> js_object" where
  "obj_set k v obj =
     (if k \<in> set (obj_keys obj) then map_set k v obj
      else case array_index k of
             Some i \<Rightarrow> insert_index i k v obj
           | None \<Rightarrow> obj @ [(k, v)])"

subsection \<open>The decision steps of \<open>sendSlackNotification\<close>\<close>

definition NOTIFICATION_THRESHOLD :: int where
  "NOTIFICATION_THRESHOLD = 20 * 60 * 1000"

text \<open>
  The copy \<open>updatedReportedOutages\<close> after the loop that deletes every key for which
  \<open>currentOutages.has\<close> is false.
\<close>

definition remove_resolved :: "js_object \<Rightarrow> (string, Outage) js_map \<Rightarrow> js_object" where
  "remove_resolved reportedOutages currentOutages =
     foldl (\<lambda>updatedReportedOutages serviceName.
              if \<not> map_has currentOutages serviceName
              then obj_delete serviceName updatedReportedOutages
              else updatedReportedOutages)
       reportedOutages (obj_keys reportedOutages)"

definition longOutages :: "(string, Outage) js_map \<Rightarrow> Outage list" where
  "longOutages currentOutages =
     filter (\<lambda>outage. duration outage \<ge> NOTIFICATION_THRESHOLD) (map_values currentOutages)"

definition newOutages :: "js_object \<Rightarrow> Outage list \<Rightarrow> Outage list" where
  "newOutages updatedReportedOutages long =
     filter (\<lambda>outage. \<not> truthy (obj_get updatedReportedOutages (service outage))) long"

text \<open>
  The value of the variable \<open>newOutages\<close> of the script, from the ledger as loaded and
  the reconstructed outages: the outages that the message reports.
\<close>

definition toAlert :: "js_object \<Rightarrow> (string, Outage) js_map \<Rightarrow> Outage list" where
  "toAlert reportedOutages currentOutages =
     newOutages (remove_resolved reportedOutages currentOutages) (longOutages currentOutages)"

subsection \<open>The message\<close>

datatype block_kind = Header | Section | Divider

datatype text_kind = mrkdwn | plain_text

record SlackTextBlock =
  text_type :: text_kind
  text_value :: string
  emoji :: "bool option"

record SlackBlock =
  block_type :: block_kind
  block_text :: "SlackTextBlock option"

text \<open>The header text starts with the UTF-8 bytes of the siren sign U+1F6A8.\<close>

definition header_block :: SlackBlock where
  "header_block =
     \<lparr>block_type = Header,
      block_text = Some \<lparr>text_type = plain_text,
        text_value = [CHR 0xF0, CHR 0x9F, CHR 0x9A, CHR 0xA8] @ '' Service Outage Notification'',
        emoji = Some True\<rparr>\<rparr>"

definition outage_blocks :: "(int \<Rightarrow> string) \<Rightarrow> Outage \<Rightarrow> SlackBlock list" where
  "outage_blocks toLocaleString outage =
     [\<lparr>block_type = Section,
       block_text = Some \<lparr>text_type = mrkdwn,
         text_value = ''*Service:* '' @ service outage
           @ [CHR 0x0A] @ ''*Duration:* '' @ formatDuration (of_int (duration outage))
           @ [CHR 0x0A] @ ''*Start Time:* '' @ toLocaleString (startTime outage)
           @ [CHR 0x0A] @ ''*Error:* '' @ error_text outage,
         emoji = None\<rparr>\<rparr>,
      \<lparr>block_type = Divider, block_text = None\<rparr>]"

definition message_blocks :: "(int \<Rightarrow> string) \<Rightarrow> Outage list \<Rightarrow> SlackBlock list" where
  "message_blocks toLocaleString new = header_block # concat (map (outage_blocks toLocaleString) new)"

subsection \<open>The run\<close>

text \<open>
  \<open>ky.post\<close> either resolves with a response, of which the script reads the status, or
  rejects; a rejection lands in the \<open>catch\<close> of \<open>sendSlackNotification\<close>. With the
  defaults of the library a status outside 200..299, a network failure and a timeout
  all reject.
\<close>

datatype post_result = Response int | Rejected

text \<open>
  What a run depends on: the environment variable, what \<open>loadReportedOutages\<close> returns
  (the empty object when the file is absent or unreadable), what \<open>readStatusChecks\<close>
  returns (\<open>None\<close> when reading or parsing throws), the instant \<open>new Date()\<close> of
  \<open>findCurrentOutages\<close>, the instants \<open>Date.now()\<close> of the stamping callback by call
  number, the locale's rendering of a date, and the webhook.
\<close>

record environment =
  SLACK_WEBHOOK_URL :: "string option"
  loadReportedOutages :: js_object
  readStatusChecks :: "StatusCheck list option"
  new_Date :: int
  Date_now :: "nat \<Rightarrow> int"
  toLocaleString :: "int \<Rightarrow> string"
  ky_post :: "string \<Rightarrow> SlackBlock list \<Rightarrow> post_result"

text \<open>
  What a run does: the message handed to \<open>ky.post\<close> if it is called, the object
  handed to \<open>saveReportedOutages\<close> if it is called, and the exit status (1 for
  \<open>process.exit(1)\<close>, 0 when the run ends by itself).
\<close>

record outcome =
  posted :: "SlackBlock list option"
  saved :: "js_object option"
  exit_status :: nat

text \<open>\<open>newOutages.forEach\<close> with the stamping callback.\<close>

definition stamp_reported :: "(nat \<Rightarrow> int) \<Rightarrow> Outage list \<Rightarrow> js_object \<Rightarrow> js_object" where
  "stamp_reported clock new updatedReportedOutages =
     foldl (\<lambda>obj (i, outage). obj_set (service outage) (clock i) obj)
       updatedReportedOutages (zip [0..<length new] new)"

definition is_set :: "string option \<Rightarrow> bool" where
  "is_set url = (case url of None \<Rightarrow> False | Some u \<Rightarrow> u \<noteq> [])"

definition sendSlackNotification :: "environment \<Rightarrow> outcome" where
  "sendSlackNotification env =
     (let reportedOutages = loadReportedOutages env in
      case readStatusChecks env of
        None \<Rightarrow> \<lparr>posted = None, saved = None, exit_status = 1\<rparr>
      | Some statusChecks \<Rightarrow>
          (let currentOutages = findCurrentOutages statusChecks (new_Date env);
               updatedReportedOutages = remove_resolved reportedOutages currentOutages;
               long = longOutages currentOutages
           in if length long = 0
              then \<lparr>posted = None, saved = Some updatedReportedOutages, exit_status = 0\<rparr>
              else
                (let new = newOutages updatedReportedOutages long in
                 if length new = 0
                 then \<lparr>posted = None, saved = Some updatedReportedOutages, exit_status = 0\<rparr>
                 else
                   (let message = message_blocks (toLocaleString env) new in
                    case SLACK_WEBHOOK_URL env of
                      None \<Rightarrow> \<lparr>posted = None, saved = Some updatedReportedOutages, exit_status = 0\<rparr>
                    | Some url \<Rightarrow>
                        if url = []
                        then \<lparr>posted = None, saved = Some updatedReportedOutages, exit_status = 0\<rparr>
                        else
                          (case ky_post env url message of
                             Rejected \<Rightarrow> \<lparr>posted = Some message, saved = None, exit_status = 1\<rparr>
                           | Response status \<Rightarrow>
                               if status \<ge> 200 \<and> status < 300
                               then \<lparr>posted = Some message,
                                     saved = Some (stamp_reported (Date_now env) new updatedReportedOutages),
                                     exit_status = 0\<rparr>
                               else \<lparr>posted = Some message, saved = Some updatedReportedOutages,
                                     exit_status = 0\<rparr>)))))"

text \<open>The script: it exits at once when the webhook URL is not set, else it runs.\<close>

definition script :: "environment \<Rightarrow> outcome" where
  "script env =
     (if \<not> is_set (SLACK_WEBHOOK_URL env)
      then \<lparr>posted = None, saved = None, exit_status = 1\<rparr>
      else sendSlackNotification env)"

subsection \<open>The replay as one sequence of events\<close>

text \<open>
  The two nested loops visit the pairs of a check time and a service check in one
  sequence: the checks in sorted order, the services of a check in the order of the log.
\<close>

type_synonym event = "int \<times> ServiceCheck"

definition events :: "StatusCheck list \<Rightarrow> event list" where
  "events cs = concat (map (\<lambda>c. map (Pair (timestamp c)) (checks c)) cs)"

definition replay :: "outage_state \<Rightarrow> event list \<Rightarrow> outage_state" where
  "replay st es = foldl (\<lambda>st e. process_service (fst e) st (snd e)) st es"

text \<open>The history of one service: its events in the order of the replay.\<close>

definition service_events :: "string \<Rightarrow> StatusCheck list \<Rightarrow> event list" where
  "service_events s statusChecks =
     filter (\<lambda>e. check_service (snd e) = s) (events (sort_checks statusChecks))"


definition is_error :: "event \<Rightarrow> bool" where
  "is_error e = (check_status (snd e) = error)"

text \<open>The longest run of error events at the end of a history.\<close>

definition error_run :: "event list \<Rightarrow> event list" where
  "error_run es = rev (takeWhile is_error (rev es))"

text \<open>The outage that the replay records for an error event that starts a run.\<close>

definition onset :: "string \<Rightarrow> event \<Rightarrow> Outage" where
  "onset s e =
     \<lparr>service = s, startTime = fst e, duration = 0,
      error_text = error_or_unknown (check_error (snd e)), isOngoing = True\<rparr>"

definition tracked :: "string \<Rightarrow> event list \<Rightarrow> Outage option" where
  "tracked s es =
     (case error_run (filter (\<lambda>e. check_service (snd e) = s) es) of
        [] \<Rightarrow> None
      | e # _ \<Rightarrow> Some (onset s e))"

definition recorded :: "string \<Rightarrow> event list \<Rightarrow> Status option" where
  "recorded s es =
     (let fs = filter (\<lambda>e. check_service (snd e) = s) es in
      if list_all (\<lambda>e. \<not> is_error e) fs then None else Some (check_status (snd (last fs))))"

subsection \<open>Sample inputs\<close>

definition svc :: "string \<Rightarrow> Status \<Rightarrow> string option \<Rightarrow> ServiceCheck" where
  "svc name st msg = \<lparr>check_service = name, check_status = st, check_error = msg\<rparr>"

definition at_time :: "int \<Rightarrow> ServiceCheck list \<Rightarrow> StatusCheck" where
  "at_time t cs = \<lparr>timestamp = t, checks = cs\<rparr>"

text \<open>
  A log out of order: \<open>svcA\<close> is fine at 0, fails at minute 5 with one message and is
  still failing at minute 30 with another.
\<close>

definition sample_log :: "StatusCheck list" where
  "sample_log =
     [at_time 1800000 [svc ''svcA'' error (Some ''refused'')],
      at_time 0 [svc ''svcA'' ok None],
      at_time 300000 [svc ''svcA'' error (Some ''timeout'')]]"

text \<open>Two services that fail in one check, the later name first.\<close>

definition two_down :: "StatusCheck list" where
  "two_down = [at_time 0 [svc ''b'' error None, svc ''a'' error (Some [])]]"

text \<open>Two checks with the same timestamp that disagree about one service.\<close>

definition tie_error :: StatusCheck where
  "tie_error = at_time 0 [svc ''svcA'' error (Some ''down'')]"

definition tie_ok :: StatusCheck where
  "tie_ok = at_time 0 [svc ''svcA'' ok None]"


text \<open>A check stamped after the instant of the run.\<close>

definition future_log :: "StatusCheck list" where
  "future_log = [at_time 10 [svc ''svcA'' error None]]"

text \<open>
  Runs on \<open>sample_log\<close> at minute 31 with a ledger that still holds a resolved service,
  against a webhook that answers with a fixed result.
\<close>

definition sample_env :: "post_result \<Rightarrow> environment" where
  "sample_env answer =
     \<lparr>SLACK_WEBHOOK_URL = Some ''https://hooks.example/T0'',
      loadReportedOutages = [(''svcOld'', 1000)],
      readStatusChecks = Some sample_log,
      new_Date = 1860000,
      Date_now = (\<lambda>i. 1860500),
      toLocaleString = (\<lambda>t. []),
      ky_post = (\<lambda>url message. answer)\<rparr>"

text \<open>The same run when the outage of \<open>svcA\<close> is in the ledger already.\<close>

definition reported_env :: environment where
  "reported_env =
     (sample_env Rejected)\<lparr>loadReportedOutages := [(''svcOld'', 1000), (''svcA'', 1500000)]\<rparr>"

text \<open>A log with a tie, and the same checks in another order that keeps the tie's order.\<close>

definition tied_log :: "StatusCheck list" where
  "tied_log = [tie_error, at_time 300000 [svc ''svcB'' error None], tie_ok]"

definition tied_log_moved :: "StatusCheck list" where
  "tied_log_moved = [at_time 300000 [svc ''svcB'' error None], tie_error, tie_ok]"

section \<open>Properties\<close>

subsection \<open>Maps and objects\<close>

lemma map_of_map_set: "map_of (map_set k v m) = (map_of m)(k \<mapsto> v)"
  by (induction m) (auto simp: fun_eq_iff)

lemma map_of_map_delete: "map_of (map_delete k m) = (map_of m)(k := None)"
  unfolding map_delete_def by (induction m) (auto simp: fun_eq_iff)

lemma map_has_iff: "map_has m k \<longleftrightarrow> map_of m k \<noteq> None"
  unfolding map_has_def by (simp add: map_of_eq_None_iff)

lemma obj_set_new_keys:
  "obj_set ''1'' 5 [(''svcB'', 7)] = [(''1'', 5), (''svcB'', 7)]"
  "obj_set ''svcA'' 5 [(''svcB'', 7)] = [(''svcB'', 7), (''svcA'', 5)]"
  "obj_set ''svcB'' 5 [(''svcB'', 7), (''svcC'', 8)] = [(''svcB'', 5), (''svcC'', 8)]"
  by (simp_all add: obj_set_def obj_keys_def array_index_def is_decimal_of_def is_digit_def
        decimal_value_def)

subsection \<open>The replay\<close>

lemma foldl_process_check: "foldl process_check st cs = replay st (events cs)"
  by (induction cs arbitrary: st) (simp_all add: events_def replay_def foldl_map process_check_def)

lemma error_run_snoc: "error_run (es @ [e]) = (if is_error e then error_run es @ [e] else [])"
  unfolding error_run_def by simp

lemma recorded_snoc:
  "recorded s (es @ [e]) =
     (if check_service (snd e) \<noteq> s then recorded s es
      else if is_error e then Some error
      else if recorded s es = None then None else Some ok)"
  unfolding recorded_def Let_def is_error_def
  by (cases "check_status (snd e)") auto

lemma tracked_snoc:
  "tracked s (es @ [e]) =
     (if check_service (snd e) \<noteq> s then tracked s es
      else if is_error e then (if tracked s es = None then Some (onset s e) else tracked s es)
      else None)"
  unfolding tracked_def
  by (auto simp: error_run_snoc split: list.splits)

lemma tracked_recorded: "tracked s es \<noteq> None \<longleftrightarrow> recorded s es = Some error"
proof (induction es rule: rev_induct)
  case Nil
  show ?case by (simp add: tracked_def recorded_def error_run_def)
next
  case (snoc e es)
  then show ?case by (auto simp: tracked_snoc recorded_snoc)
qed

text \<open>
  After any prefix of the replay, \<open>outageMap\<close> holds for every service the onset of the
  error run its history ends with, and \<open>serviceStatus\<close> holds the last status of every
  service that has failed at least once.
\<close>

lemma replay_invariant:
  "map_of (fst (replay ([], []) es)) s = tracked s es \<and>
   map_option state_status (map_of (snd (replay ([], []) es)) s) = recorded s es"
proof (induction es rule: rev_induct)
  case Nil
  show ?case by (simp add: replay_def tracked_def recorded_def error_run_def)
next
  case (snoc e es)
  obtain om ss where st: "replay ([], []) es = (om, ss)"
    by (cases "replay ([], []) es")
  from snoc st have om: "map_of om s = tracked s es"
    and ss: "map_option state_status (map_of ss s) = recorded s es"
    by simp_all
  have tr: "tracked s es \<noteq> None \<longleftrightarrow> recorded s es = Some error"
    by (rule tracked_recorded)
  have step: "replay ([], []) (es @ [e]) = process_service (fst e) (om, ss) (snd e)"
    by (simp add: replay_def st[unfolded replay_def])
  show ?case
  proof (cases "check_service (snd e) = s")
    case False
    then show ?thesis
      unfolding step
      by (auto simp: process_service_def Let_def map_of_map_set map_of_map_delete
            tracked_snoc recorded_snoc om ss split: Status.splits)
  next
    case True
    then show ?thesis
      unfolding step using tr om ss
      by (cases "check_status (snd e)"; cases "map_of ss s"; cases "recorded s es";
          cases "the (recorded s es)")
         (auto simp: process_service_def Let_def map_of_map_set map_of_map_delete map_get_def
            map_has_iff tracked_snoc recorded_snoc is_error_def onset_def split: Status.splits)
  qed
qed

lemma map_of_set_durations:
  "map_of (set_durations now m) s =
     map_option (\<lambda>outage. outage\<lparr>duration := now - startTime outage\<rparr>) (map_of m s)"
  unfolding set_durations_def by (induction m) auto

text \<open>What \<open>findCurrentOutages\<close> returns for one service, in terms of its history.\<close>

lemma outage_lookup:
  "map_get (findCurrentOutages statusChecks now) s =
     map_option (\<lambda>outage. outage\<lparr>duration := now - startTime outage\<rparr>)
       (tracked s (events (sort_checks statusChecks)))"
  unfolding findCurrentOutages_def map_get_def
  by (simp add: map_of_set_durations foldl_process_check replay_invariant)

lemma tracked_service_events:
  "tracked s (events (sort_checks statusChecks)) =
     (case error_run (service_events s statusChecks) of [] \<Rightarrow> None | e # _ \<Rightarrow> Some (onset s e))"
  by (simp add: tracked_def service_events_def)



lemma sample_sorted:
  "sort_checks sample_log =
     [at_time 0 [svc ''svcA'' ok None],
      at_time 300000 [svc ''svcA'' error (Some ''timeout'')],
      at_time 1800000 [svc ''svcA'' error (Some ''refused'')]]"
  by (simp add: sort_checks_def sample_log_def at_time_def)

lemma sample_events:
  "service_events ''svcA'' sample_log =
     [(0, svc ''svcA'' ok None),
      (300000, svc ''svcA'' error (Some ''timeout'')),
      (1800000, svc ''svcA'' error (Some ''refused''))]"
  by (simp add: service_events_def sample_sorted events_def at_time_def svc_def)

subsection \<open>Reconstruction\<close>





















lemma error_run_subset: "set (error_run es) \<subseteq> set es"
  unfolding error_run_def by (auto dest: set_takeWhileD)

lemma tracked_start:
  assumes "tracked s es = Some outage"
  shows "startTime outage \<in> fst ` set es"
proof -
  from assms obtain e r where er: "error_run (filter (\<lambda>e. check_service (snd e) = s) es) = e # r"
    and o: "outage = onset s e"
    by (auto simp: tracked_def split: list.splits)
  from er have "e \<in> set (error_run (filter (\<lambda>e. check_service (snd e) = s) es))"
    by simp
  then have "e \<in> set es"
    using error_run_subset by fastforce
  then show ?thesis
    using o by (auto simp: onset_def)
qed

lemma events_times: "fst ` set (events cs) \<subseteq> timestamp ` set cs"
  unfolding events_def by auto

text \<open>
  C3. Every outage that \<open>findCurrentOutages\<close> returns has \<open>duration = now - startTime\<close>.
  The duration is not negative when no check of the log is stamped after \<open>now\<close>; a
  check stamped after \<open>now\<close> can give a negative duration, since the difference is
  stored as it is.
\<close>

theorem duration_is_now_minus_start:
  "map_get (findCurrentOutages statusChecks now) s = Some outage \<Longrightarrow>
     duration outage = now - startTime outage
     \<and> ((\<forall>c \<in> set statusChecks. timestamp c \<le> now) \<longrightarrow> 0 \<le> duration outage)"
proof -
  assume a: "map_get (findCurrentOutages statusChecks now) s = Some outage"
  then obtain o' where t: "tracked s (events (sort_checks statusChecks)) = Some o'"
    and o: "outage = o'\<lparr>duration := now - startTime o'\<rparr>"
    by (auto simp: outage_lookup)
  from tracked_start[OF t] events_times
  have "startTime o' \<in> timestamp ` set (sort_checks statusChecks)"
    by blast
  then have "startTime o' \<in> timestamp ` set statusChecks"
    by (simp add: sort_checks_def)
  with o show ?thesis
    by auto
qed

theorem duration_is_now_minus_start_witness:
  "map_get (findCurrentOutages sample_log 1860000) ''svcA''
     = Some \<lparr>service = ''svcA'', startTime = 300000, duration = 1560000,
              error_text = ''timeout'', isOngoing = True\<rparr>
   \<and> list_all (\<lambda>c. timestamp c \<le> 1860000) sample_log
   \<and> (1560000::int) = 1860000 - 300000 \<and> (0::int) \<le> 1560000"
proof -
  have v: "map_get (findCurrentOutages sample_log 1860000) ''svcA''
     = Some \<lparr>service = ''svcA'', startTime = 300000, duration = 1560000,
              error_text = ''timeout'', isOngoing = True\<rparr>"
    by (simp add: outage_lookup tracked_service_events sample_events error_run_def is_error_def
          svc_def onset_def error_or_unknown_def)
  have b: "\<forall>c \<in> set sample_log. timestamp c \<le> 1860000"
    by (simp add: sample_log_def at_time_def)
  from duration_is_now_minus_start [OF v] v b show ?thesis
    by (simp add: list_all_iff)
qed

text \<open>
  The claim as first stated, with a duration that is never negative, fails for a check
  stamped at 10 when the run reads the clock at 5: the duration is -5.
\<close>

theorem duration_negative_for_future_check:
  "map_option duration (map_get (findCurrentOutages future_log 5) ''svcA'') = Some (- 5)
   \<and> \<not> (0::int) \<le> - 5"
  by (simp add: findCurrentOutages_def future_log_def sort_checks_def at_time_def svc_def
        process_check_def process_service_def Let_def map_has_def map_get_def set_durations_def)




subsection \<open>The order of the log\<close>

lemma sort_key_ties_cong:
  assumes "mset ys = mset xs"
    and "\<forall>t. filter (\<lambda>x. f x = t) ys = filter (\<lambda>x. f x = t) xs"
  shows "sort_key f ys = sort_key f xs"
proof (rule properties_for_sort_key)
  show "mset (sort_key f xs) = mset ys"
    using assms(1) by simp
  show "sorted (map f (sort_key f xs))"
    by simp
  fix k
  have "filter (\<lambda>x. f x = f k) (sort_key f xs) = filter (\<lambda>x. f x = f k) xs"
    by (rule sort_key_stable)
  also have "\<dots> = filter (\<lambda>x. f x = f k) ys"
    using assms(2) by simp
  finally show "filter (\<lambda>x. f k = f x) (sort_key f xs) = filter (\<lambda>x. f k = f x) ys"
    by (simp add: eq_commute)
qed

text \<open>
  C5. \<open>findCurrentOutages\<close> returns the same map for a log and for a permutation of it
  in which the checks that share a timestamp stand in the same relative order; this
  covers every permutation of a log whose timestamps are pairwise distinct. Checks
  with equal timestamps are replayed in the order of the log, so moving one past
  another can change the result.
\<close>

theorem reconstruction_invariant_under_reordering:
  "mset ys = mset xs \<Longrightarrow>
   \<forall>t. filter (\<lambda>c. timestamp c = t) ys = filter (\<lambda>c. timestamp c = t) xs \<Longrightarrow>
     findCurrentOutages ys now = findCurrentOutages xs now"
  using sort_key_ties_cong [of ys xs timestamp]
  by (simp add: findCurrentOutages_def sort_checks_def)

theorem reconstruction_invariant_under_reordering_witness:
  "mset tied_log_moved = mset tied_log
   \<and> (\<forall>t. filter (\<lambda>c. timestamp c = t) tied_log_moved = filter (\<lambda>c. timestamp c = t) tied_log)
   \<and> findCurrentOutages tied_log_moved 1860000 = findCurrentOutages tied_log 1860000"
proof -
  have m: "mset tied_log_moved = mset tied_log"
    by (simp add: tied_log_def tied_log_moved_def)
  have f: "\<forall>t. filter (\<lambda>c. timestamp c = t) tied_log_moved = filter (\<lambda>c. timestamp c = t) tied_log"
    by (simp add: tied_log_def tied_log_moved_def tie_error_def tie_ok_def at_time_def)
  from reconstruction_invariant_under_reordering [OF m f] m f show ?thesis
    by simp
qed

text \<open>
  The claim as first stated, for every permutation, fails for two checks with the same
  timestamp: error then ok leaves no outage, ok then error leaves one.
\<close>

theorem reordering_a_tie_changes_result:
  "mset [tie_ok, tie_error] = mset [tie_error, tie_ok]
   \<and> findCurrentOutages [tie_ok, tie_error] 0 \<noteq> findCurrentOutages [tie_error, tie_ok] 0"
  by (simp add: findCurrentOutages_def tie_ok_def tie_error_def sort_checks_def at_time_def svc_def
        process_check_def process_service_def Let_def map_has_def map_get_def set_durations_def
        map_delete_def)

subsection \<open>Cleaning the ledger\<close>

lemma foldl_delete:
  "foldl (\<lambda>obj k. if \<not> P k then obj_delete k obj else obj) obj ks
     = filter (\<lambda>p. fst p \<in> set ks \<longrightarrow> P (fst p)) obj"
proof (induction ks arbitrary: obj)
  case Nil
  show ?case by simp
next
  case (Cons k ks)
  show ?case
    by (simp add: Cons.IH obj_delete_def)
qed

lemma remove_resolved_filter:
  "remove_resolved reportedOutages currentOutages
     = filter (\<lambda>p. map_has currentOutages (fst p)) reportedOutages"
  unfolding remove_resolved_def obj_keys_def
  by (simp add: foldl_delete) (rule filter_cong, auto)

lemma map_of_filter_fst:
  "map_of (filter (\<lambda>p. P (fst p)) m) k = (if P k then map_of m k else None)"
  by (induction m) auto

text \<open>
  C6. The cleanup keeps the entries of the ledger whose key is in the outage map, in
  their order and with their values, and drops the others: the keys left are the keys
  of the ledger minus those absent from the outage map, and a key that is left reads
  the timestamp it had.
\<close>

theorem cleanup_removes_exactly_resolved:
  "remove_resolved reportedOutages currentOutages
     = filter (\<lambda>p. map_has currentOutages (fst p)) reportedOutages
   \<and> set (obj_keys (remove_resolved reportedOutages currentOutages))
       = set (obj_keys reportedOutages) - {k. \<not> map_has currentOutages k}
   \<and> map_of (remove_resolved reportedOutages currentOutages) k
       = (if map_has currentOutages k then map_of reportedOutages k else None)"
  by (auto simp: remove_resolved_filter map_of_filter_fst obj_keys_def)

subsection \<open>Rounding to a double\<close>

lemma floorlog2_bounds:
  assumes "0 < n"
  shows "(2::real) ^ (floorlog 2 n - 1) \<le> real n" and "real n + 1 \<le> 2 ^ floorlog 2 n"
    and "0 < floorlog 2 n"
proof -
  from floorlog_bounds[of n 2] assms
  have a: "2 ^ (floorlog 2 n - 1) \<le> n" and b: "n < 2 ^ floorlog 2 n" by simp_all
  from a have "real (2 ^ (floorlog 2 n - 1)) \<le> real n" by (simp only: of_nat_le_iff)
  then show "(2::real) ^ (floorlog 2 n - 1) \<le> real n" by simp
  from b have "n + 1 \<le> 2 ^ floorlog 2 n" by simp
  then have "real (n + 1) \<le> real (2 ^ floorlog 2 n)" by (simp only: of_nat_le_iff)
  then show "real n + 1 \<le> 2 ^ floorlog 2 n" by simp
  from assms show "0 < floorlog 2 n" by (simp add: floorlog_def)
qed

lemma exponent_bounds:
  assumes "0 < x"
  shows "2 powi exponent x \<le> x" and "x < 2 powi (exponent x + 1)"
proof -
  have "2 powi exponent x \<le> x \<and> x < 2 powi (exponent x + 1)"
  proof (cases "1 \<le> x")
    case True
    define n where "n = nat \<lfloor>x\<rfloor>"
    define k where "k = floorlog 2 n"
    from True have n0: "0 < n" unfolding n_def by simp
    have nx: "real n \<le> x" "x < real n + 1"
      unfolding n_def using True by (simp_all add: of_nat_nat)
    from floorlog2_bounds[OF n0] have k: "(2::real) ^ (k - 1) \<le> real n" "real n + 1 \<le> 2 ^ k" "0 < k"
      unfolding k_def by simp_all
    have e: "exponent x = int (k - 1)"
      using True k(3) by (simp add: exponent_def n_def k_def)
    have e1: "exponent x + 1 = int k"
      using e k(3) by simp
    have "2 powi exponent x = (2::real) ^ (k - 1)"
      by (simp only: e power_int_of_nat)
    moreover have "2 powi (exponent x + 1) = (2::real) ^ k"
      by (simp only: e1 power_int_of_nat)
    ultimately show ?thesis
      using k nx by linarith
  next
    case False
    define y where "y = 1 / x"
    define n where "n = nat (\<lceil>y\<rceil> - 1)"
    define k where "k = floorlog 2 n"
    from False assms have y1: "1 < y" unfolding y_def by simp
    then have c: "2 \<le> \<lceil>y\<rceil>" by linarith
    then have n0: "0 < n" unfolding n_def by simp
    have rn: "real n = of_int \<lceil>y\<rceil> - 1"
      unfolding n_def using c by (simp add: of_nat_nat)
    have ny: "real n < y" "y \<le> real n + 1"
      unfolding rn by linarith+
    from floorlog2_bounds[OF n0] have k: "(2::real) ^ (k - 1) \<le> real n" "real n + 1 \<le> 2 ^ k" "0 < k"
      unfolding k_def by simp_all
    have e: "exponent x = - int k"
      using False by (simp add: exponent_def n_def k_def y_def)
    have e1: "exponent x + 1 = - int (k - 1)"
      using e k(3) by simp
    have "y \<le> 2 ^ k" using ny k by linarith
    then have lo: "1 / 2 ^ k \<le> x"
      unfolding y_def using assms by (simp add: field_simps)
    have "2 ^ (k - 1) < y" using ny k by linarith
    then have hi: "x < 1 / 2 ^ (k - 1)"
      unfolding y_def using assms by (simp add: field_simps)
    have "2 powi exponent x = 1 / (2::real) ^ k"
      by (simp only: e power_int_minus_divide power_int_of_nat)
    moreover have "2 powi (exponent x + 1) = 1 / (2::real) ^ (k - 1)"
      by (simp only: e1 power_int_minus_divide power_int_of_nat)
    ultimately show ?thesis
      using lo hi by linarith
  qed
  then show "2 powi exponent x \<le> x" and "x < 2 powi (exponent x + 1)" by simp_all
qed

lemma exponent_unique:
  assumes "0 < x" and "2 powi e \<le> x" and "x < 2 powi (e + 1)"
  shows "exponent x = e"
proof (rule ccontr)
  assume ne: "exponent x \<noteq> e"
  from exponent_bounds[OF assms(1)]
  have b: "2 powi exponent x \<le> x" "x < 2 powi (exponent x + 1)" .
  show False
  proof (cases "exponent x < e")
    case True
    then have "(2::real) powi (exponent x + 1) \<le> 2 powi e"
      by (intro power_int_increasing) simp_all
    with b(2) assms(2) show False by linarith
  next
    case False
    with ne have "e + 1 \<le> exponent x" by simp
    then have "(2::real) powi (e + 1) \<le> 2 powi exponent x"
      by (intro power_int_increasing) simp_all
    with b(1) assms(3) show False by linarith
  qed
qed

lemma exponent_mono:
  assumes "0 < x" and "x \<le> y"
  shows "exponent x \<le> exponent y"
proof (rule ccontr)
  assume "\<not> exponent x \<le> exponent y"
  then have "exponent y + 1 \<le> exponent x" by simp
  then have "(2::real) powi (exponent y + 1) \<le> 2 powi exponent x"
    by (intro power_int_increasing) simp_all
  moreover from assms have "0 < y" by simp
  ultimately show False
    using exponent_bounds(1)[OF assms(1)] exponent_bounds(2)[OF \<open>0 < y\<close>] assms(2) by linarith
qed

lemma round_half_even_int: "round_half_even (of_int n) = n"
  by (simp add: round_half_even_def)

lemma round_half_even_range:
  "of_int (round_half_even y) \<le> y + 1 / 2" "y - 1 / 2 \<le> of_int (round_half_even y)"
  "round_half_even y = \<lfloor>y\<rfloor> \<or> round_half_even y = \<lfloor>y\<rfloor> + 1"
  unfolding round_half_even_def Let_def by (auto split: if_splits) linarith+

lemma round_half_even_mono:
  assumes "a \<le> b"
  shows "round_half_even a \<le> round_half_even b"
proof (cases "\<lfloor>a\<rfloor> = \<lfloor>b\<rfloor>")
  case True
  with assms show ?thesis
    unfolding round_half_even_def Let_def by auto
next
  case False
  with assms have "\<lfloor>a\<rfloor> + 1 \<le> \<lfloor>b\<rfloor>"
    using floor_mono[OF assms] by linarith
  moreover have "round_half_even a \<le> \<lfloor>a\<rfloor> + 1" "\<lfloor>b\<rfloor> \<le> round_half_even b"
    using round_half_even_range(3)[of a] round_half_even_range(3)[of b] by auto
  ultimately show ?thesis by linarith
qed

lemma to_double_pos:
  assumes "0 < x"
  shows "to_double x = of_int (round_half_even (x / 2 powi (exponent x - 52))) * 2 powi (exponent x - 52)"
  using assms by (simp add: to_double_def Let_def)

lemma to_double_bounds:
  assumes "0 < x"
  shows "2 powi exponent x \<le> to_double x" and "to_double x \<le> 2 powi (exponent x + 1)"
proof -
  define e where "e = exponent x"
  define u :: real where "u = 2 powi (e - 52)"
  have u0: "0 < u" unfolding u_def by simp
  have p1: "(2::real) powi e = 2 ^ 52 * u"
    unfolding u_def by (simp add: power_int_diff)
  have p2: "(2::real) powi (e + 1) = 2 ^ 53 * u"
    unfolding u_def by (simp add: power_int_diff power_int_add)
  from exponent_bounds[OF assms] have b: "2 ^ 52 * u \<le> x" "x < 2 ^ 53 * u"
    unfolding e_def[symmetric] p1 p2 by simp_all
  from b(1) u0 have "of_int (2 ^ 52) \<le> x / u" by (simp add: field_simps)
  then have "round_half_even (of_int (2 ^ 52)) \<le> round_half_even (x / u)"
    by (rule round_half_even_mono)
  then have lo: "2 ^ 52 \<le> round_half_even (x / u)"
    by (simp only: round_half_even_int)
  from b(2) u0 have "x / u \<le> of_int (2 ^ 53)" by (simp add: field_simps)
  then have "round_half_even (x / u) \<le> round_half_even (of_int (2 ^ 53))"
    by (rule round_half_even_mono)
  then have hi: "round_half_even (x / u) \<le> 2 ^ 53"
    by (simp only: round_half_even_int)
  have td: "to_double x = of_int (round_half_even (x / u)) * u"
    unfolding u_def e_def by (rule to_double_pos[OF assms])
  from lo have "(2::real) ^ 52 \<le> of_int (round_half_even (x / u))"
    by (metis of_int_le_iff of_int_numeral of_int_power)
  then show "2 powi exponent x \<le> to_double x"
    unfolding e_def[symmetric] p1 td using u0 by simp
  from hi have "of_int (round_half_even (x / u)) \<le> (2::real) ^ 53"
    by (metis of_int_le_iff of_int_numeral of_int_power)
  then show "to_double x \<le> 2 powi (exponent x + 1)"
    unfolding e_def[symmetric] p2 td using u0 by simp
qed

lemma to_double_mono:
  assumes "0 < x" and "x \<le> y"
  shows "to_double x \<le> to_double y"
proof -
  from assms have y0: "0 < y" by simp
  show ?thesis
  proof (cases "exponent x = exponent y")
    case True
    define u :: real where "u = 2 powi (exponent y - 52)"
    have u0: "0 < u" unfolding u_def by simp
    from assms(2) u0 have "x / u \<le> y / u" by (simp add: divide_right_mono)
    then have "round_half_even (x / u) \<le> round_half_even (y / u)"
      by (rule round_half_even_mono)
    then have "of_int (round_half_even (x / u)) * u \<le> of_int (round_half_even (y / u)) * u"
      using u0 by simp
    then show ?thesis
      unfolding to_double_pos[OF assms(1)] to_double_pos[OF y0] True u_def .
  next
    case False
    with exponent_mono[OF assms] have "exponent x + 1 \<le> exponent y" by simp
    then have "(2::real) powi (exponent x + 1) \<le> 2 powi exponent y"
      by (intro power_int_increasing) simp_all
    with to_double_bounds(2)[OF assms(1)] to_double_bounds(1)[OF y0] show ?thesis
      by linarith
  qed
qed

text \<open>A positive multiple of \<open>1 / 2 ^ j\<close> with a numerator below \<open>2 ^ 53\<close> is a double.\<close>

lemma to_double_exact:
  assumes "0 < k" and "k < 2 ^ 53" and "j \<le> 53"
  shows "to_double (of_int k / 2 ^ j) = of_int k / 2 ^ j"
proof -
  define z :: real where "z = of_int k / 2 ^ j"
  have z0: "0 < z" unfolding z_def using assms(1) by simp
  define e where "e = exponent z"
  have "z < 2 ^ 53 / 2 ^ j"
    unfolding z_def using assms(2) by (simp add: divide_strict_right_mono)
  also have "\<dots> = 2 powi (53 - int j)"
    by (simp add: power_int_diff)
  finally have "2 powi e < (2::real) powi (53 - int j)"
    using exponent_bounds(1)[OF z0] unfolding e_def by linarith
  then have "e < 53 - int j"
    by (metis linorder_not_less one_le_numeral power_int_increasing)
  then have elt: "e < 53 - int j" .
  define d where "d = nat (52 - int j - e)"
  have d: "52 - int j - e = int d"
    using elt by (simp add: d_def)
  have "z / 2 powi (e - 52) = z * 2 powi (52 - e)"
    by (simp add: power_int_diff field_simps)
  also have "52 - e = int j + int d" using d by simp
  also have "z * 2 powi (int j + int d) = of_int k * 2 ^ d"
    unfolding z_def by (simp add: power_int_add)
  also have "\<dots> = of_int (k * 2 ^ d)" by simp
  finally have "round_half_even (z / 2 powi (e - 52)) = k * 2 ^ d"
    by (simp only: round_half_even_int)
  then have "to_double z = of_int (k * 2 ^ d) * 2 powi (e - 52)"
    unfolding to_double_pos[OF z0] e_def by simp
  also have "e - 52 = - (int j + int d)" using d by simp
  also have "(2::real) powi (- (int j + int d)) = 1 / (2 ^ j * 2 ^ d)"
    by (simp only: power_int_minus_divide of_nat_add[symmetric] power_int_of_nat power_add)
  also have "of_int (k * 2 ^ d) * (1 / (2 ^ j * 2 ^ d)) = z"
    unfolding z_def by simp
  finally show ?thesis unfolding z_def .
qed

lemma to_double_pos_pos: "0 < x \<Longrightarrow> 0 < to_double x"
proof -
  assume a: "0 < x"
  have "(0::real) < 2 powi exponent x" by simp
  with to_double_bounds(1)[OF a] show ?thesis by linarith
qed

lemma to_double_le_exact:
  assumes "0 < x" and "x \<le> of_int k / 2 ^ j" and "k < 2 ^ 53" and "j \<le> 53"
  shows "to_double x \<le> of_int k / 2 ^ j"
proof -
  from assms(1,2) have "0 < real_of_int k / 2 ^ j" by linarith
  then have k0: "0 < k" by (simp add: zero_less_divide_iff)
  from to_double_mono[OF assms(1,2)] to_double_exact[OF k0 assms(3,4)] show ?thesis by simp
qed

lemma to_double_ge_exact:
  assumes "0 < k" and "of_int k / 2 ^ j \<le> x" and "k < 2 ^ 53" and "j \<le> 53"
  shows "of_int k / 2 ^ j \<le> to_double x"
proof -
  from assms(1) have z0: "0 < real_of_int k / 2 ^ j" by simp
  from to_double_mono[OF z0 assms(2)] to_double_exact[OF assms(1,3,4)] show ?thesis by simp
qed

text \<open>
  The two rounded divisions of a whole amount below \<open>2 ^ 51\<close> give the minute nearest
  to the exact quotient: the bounds \<open>m - 1 / 2\<close> and the doubles just below
  \<open>m + 1 / 2\<close> are exact, and rounding is monotone.
\<close>

lemma total_minutes_nearest:
  assumes "0 \<le> k" and "k < 2 ^ 51"
  shows "Math_round (to_double (to_double (of_int k / 1000) / 60)) = (k + 30000) div 60000"
proof (cases "k = 0")
  case True
  then show ?thesis
    by (simp add: Math_round_def to_double_def)
next
  case False
  with assms have kpos: "0 < k" by simp
  define m where "m = (k + 30000) div 60000"
  define r where "r = (k + 30000) mod 60000"
  have kr: "k + 30000 = 60000 * m + r" unfolding m_def r_def by simp
  have r: "0 \<le> r" "r < 60000" unfolding r_def by simp_all
  have m0: "0 \<le> m" unfolding m_def using assms(1) by simp
  have "60000 * m \<le> k + 30000" using kr r by linarith
  then have m36: "m < 2 ^ 36" using assms(2) by simp
  define x0 :: real where "x0 = of_int k / 1000"
  define x1 where "x1 = to_double x0"
  define y where "y = to_double (x1 / 60)"
  have x0pos: "0 < x0" unfolding x0_def using kpos by simp
  have x1pos: "0 < x1" unfolding x1_def using x0pos by (rule to_double_pos_pos)
  then have x2pos: "0 < x1 / 60" by simp
  have ypos: "0 < y" unfolding y_def using x2pos by (rule to_double_pos_pos)
  define K1 where "K1 = (60 * m + 30) * 1024 - 1"
  have K1: "K1 < 2 ^ 53" unfolding K1_def using m36 by simp
  have "real_of_int k \<le> 60000 * real_of_int m + 29999"
  proof -
    have "k \<le> 60000 * m + 29999" using kr r by linarith
    then have "real_of_int k \<le> real_of_int (60000 * m + 29999)" by (simp only: of_int_le_iff)
    then show ?thesis by simp
  qed
  then have "x0 \<le> of_int K1 / 2 ^ 10"
    unfolding x0_def K1_def by simp
  then have u1: "x1 \<le> of_int K1 / 2 ^ 10"
    unfolding x1_def using x0pos K1 by (intro to_double_le_exact) simp_all
  define K2 where "K2 = (2 * m + 1) * 32768 - 1"
  have K2: "K2 < 2 ^ 53" unfolding K2_def using m36 by simp
  have "x1 / 60 \<le> of_int K2 / 2 ^ 16"
    using u1 unfolding K1_def K2_def by simp
  then have "y \<le> of_int K2 / 2 ^ 16"
    unfolding y_def using x2pos K2 by (intro to_double_le_exact) simp_all
  then have upper: "y + 1 / 2 < of_int m + 1"
    unfolding K2_def by simp
  have lower: "of_int m \<le> y + 1 / 2"
  proof (cases "m = 0")
    case True
    with ypos show ?thesis by simp
  next
    case False
    with m0 have m1: "1 \<le> m" by simp
    define L1 where "L1 = 60 * m - 30"
    have L1: "0 < L1" "L1 < 2 ^ 53" unfolding L1_def using m1 m36 by simp_all
    have "60000 * real_of_int m - 30000 \<le> real_of_int k"
    proof -
      have "60000 * m - 30000 \<le> k" using kr r by linarith
      then have "real_of_int (60000 * m - 30000) \<le> real_of_int k" by (simp only: of_int_le_iff)
      then show ?thesis by simp
    qed
    then have "of_int L1 / 2 ^ 0 \<le> x0"
      unfolding x0_def L1_def by simp
    then have "of_int L1 / 2 ^ 0 \<le> x1"
      unfolding x1_def using L1 by (intro to_double_ge_exact) simp_all
    then have l1: "60 * real_of_int m - 30 \<le> x1"
      unfolding L1_def by simp
    define L2 where "L2 = 2 * m - 1"
    have L2: "0 < L2" "L2 < 2 ^ 53" unfolding L2_def using m1 m36 by simp_all
    have "of_int L2 / 2 ^ 1 \<le> x1 / 60"
      using l1 unfolding L2_def by simp
    then have "of_int L2 / 2 ^ 1 \<le> y"
      unfolding y_def using L2 by (intro to_double_ge_exact) simp_all
    then show ?thesis
      unfolding L2_def by simp
  qed
  have "\<lfloor>y + 1 / 2\<rfloor> = m"
    using lower upper by (intro floor_unique) simp_all
  then show ?thesis
    unfolding Math_round_def y_def x1_def x0_def m_def .
qed

lemma to_double_eval:
  assumes "0 < x" and "2 powi e \<le> x" and "x < 2 powi (e + 1)"
  shows "to_double x = of_int (round_half_even (x / 2 powi (e - 52))) * 2 powi (e - 52)"
  using to_double_pos[OF assms(1)] exponent_unique[OF assms] by simp

text \<open>The hours: the rounded quotient by 60 has the floor of the exact one.\<close>

lemma hours_exact:
  assumes "60 \<le> t" and "t < 2 ^ 47"
  shows "Math_floor (to_double (of_int t / 60)) = t div 60"
proof -
  define n where "n = t div 60"
  define r where "r = t mod 60"
  have tr: "t = 60 * n + r" unfolding n_def r_def by simp
  have r: "0 \<le> r" "r \<le> 59" unfolding r_def by simp_all
  have n1: "1 \<le> n" unfolding n_def using assms(1) by simp
  have "60 * n \<le> t" using tr r by linarith
  then have n47: "n < 2 ^ 47" using assms(2) by simp
  define q :: real where "q = of_int t / 60"
  have q0: "0 < q" unfolding q_def using assms(1) by simp
  have tq: "real_of_int t = 60 * real_of_int n + real_of_int r"
    using tr by (metis of_int_add of_int_mult of_int_numeral)
  have rr: "0 \<le> real_of_int r" "real_of_int r \<le> 59"
    using r by simp_all
  have "of_int n / 2 ^ 0 \<le> q"
    unfolding q_def using tq rr by simp
  then have "of_int n / 2 ^ 0 \<le> to_double q"
    using n1 n47 by (intro to_double_ge_exact) simp_all
  then have lo: "of_int n \<le> to_double q" by simp
  define K where "K = (n + 1) * 64 - 1"
  have K: "K < 2 ^ 53" unfolding K_def using n47 by simp
  have "q \<le> of_int K / 2 ^ 6"
    unfolding q_def K_def using tq rr by simp
  then have "to_double q \<le> of_int K / 2 ^ 6"
    using q0 K by (intro to_double_le_exact) simp_all
  then have hi: "to_double q < of_int n + 1"
    unfolding K_def by simp
  have "\<lfloor>to_double q\<rfloor> = n"
    using lo hi by (intro floor_unique) simp_all
  then show ?thesis
    unfolding Math_floor_def q_def n_def .
qed

text \<open>\<open>formatDuration\<close> on a whole amount below \<open>2 ^ 51\<close>, in integer arithmetic.\<close>

lemma formatDuration_int:
  assumes "0 \<le> k" and "k < 2 ^ 51"
  shows "formatDuration (of_int k) =
     (let totalMinutes = (k + 30000) div 60000 in
      if totalMinutes \<ge> 60 then
        toString (totalMinutes div 60) @ ''hr ''
          @ padStart 2 (CHR ''0'') (toString (totalMinutes mod 60)) @ ''min''
      else toString totalMinutes @ ''min'')"
proof -
  define m where "m = (k + 30000) div 60000"
  have tm: "Math_round (to_double (to_double (of_int k / 1000) / 60)) = m"
    unfolding m_def using assms by (rule total_minutes_nearest)
  have "60000 * m \<le> k + 30000" unfolding m_def by simp
  then have m47: "m < 2 ^ 47" using assms(2) by simp
  show ?thesis
  proof (cases "60 \<le> m")
    case True
    then have "Math_floor (to_double (of_int m / 60)) = m div 60"
      using m47 by (rule hours_exact)
    with True show ?thesis
      unfolding formatDuration_def tm m_def[symmetric] by (simp add: Let_def)
  next
    case False
    then show ?thesis
      unfolding formatDuration_def tm m_def[symmetric] by (simp add: Let_def)
  qed
qed

subsection \<open>Decimal numerals of the model\<close>

lemma digit_char_0: "digit_char 0 = CHR ''0''"
  by (simp add: digit_char_def)

lemma digit_cases: "d < 10 \<Longrightarrow> d \<in> {0, 1, 2, 3, 4, 5, 6, 7, 8, 9::nat}"
  by auto

lemma digit_char_props:
  assumes "d < 10"
  shows "is_digit (digit_char d)" and "of_char (digit_char d) - 48 = d"
    and "0 < d \<Longrightarrow> digit_char d \<noteq> CHR ''0''"
  using digit_cases[OF assms] by (auto simp: is_digit_def digit_char_def)

lemma digits_small: "n < 10 \<Longrightarrow> digits n = [digit_char n]"
  by (simp add: digits.simps)

lemma digits_two: "10 \<le> n \<Longrightarrow> n < 100 \<Longrightarrow> digits n = [digit_char (n div 10), digit_char (n mod 10)]"
  by (subst digits.simps) (simp add: digits_small)

lemma decimal_value_snoc: "decimal_value (ds @ [c]) = 10 * decimal_value ds + (of_char c - 48)"
  by (simp add: decimal_value_def)

lemma digits_nonempty: "digits n \<noteq> []"
  by (subst digits.simps) simp

lemma digits_decimal: "is_decimal_of (digits n) n"
proof (induction n rule: digits.induct)
  case (1 n)
  show ?case
  proof (cases "n < 10")
    case True
    then have d: "digits n = [digit_char n]" by (rule digits_small)
    have "decimal_value [digit_char n] = n"
      using digit_char_props(2)[OF True] by (simp add: decimal_value_def)
    moreover have "digit_char n = CHR ''0'' \<longrightarrow> n = 0"
      using digit_char_props(3)[OF True] by auto
    ultimately show ?thesis
      unfolding is_decimal_of_def d using digit_char_props(1)[OF True]
      by (auto simp: digit_char_0)
  next
    case False
    then have d: "digits n = digits (n div 10) @ [digit_char (n mod 10)]"
      by (subst digits.simps) simp
    from False "1.IH" have ih: "is_decimal_of (digits (n div 10)) (n div 10)" by simp
    have lt: "n mod 10 < 10" by simp
    from False have pos: "n div 10 \<noteq> 0" by simp
    from ih pos have hd0: "hd (digits (n div 10)) \<noteq> CHR ''0''"
      unfolding is_decimal_of_def by (auto simp: decimal_value_def)
    have ne: "digits (n div 10) \<noteq> []" by (rule digits_nonempty)
    have "decimal_value (digits n) = n"
      unfolding d decimal_value_snoc using ih digit_char_props(2)[OF lt]
      by (simp add: is_decimal_of_def)
    moreover have "list_all is_digit (digits n)"
      unfolding d using ih digit_char_props(1)[OF lt] by (simp add: is_decimal_of_def)
    moreover have "hd (digits n) \<noteq> CHR ''0''"
      unfolding d using ne hd0 by simp
    ultimately show ?thesis
      unfolding is_decimal_of_def using digits_nonempty by simp
  qed
qed

lemma pad_minutes:
  assumes "0 \<le> m" and "m < 60"
  shows "padStart 2 (CHR ''0'') (toString m) = [digit_char (nat m div 10), digit_char (nat m mod 10)]"
proof (cases "m < 10")
  case True
  with assms show ?thesis
    by (simp add: padStart_def toString_def digits_small digit_char_0)
next
  case False
  with assms show ?thesis
    by (simp add: padStart_def toString_def digits_two)
qed

lemma two_digits_value:
  assumes "n < 60"
  shows "is_digit (digit_char (n div 10))" and "is_digit (digit_char (n mod 10))"
    and "decimal_value [digit_char (n div 10), digit_char (n mod 10)] = n"
proof -
  have a: "n div 10 < 10" using assms by simp
  have b: "n mod 10 < 10" by simp
  show "is_digit (digit_char (n div 10))" using a by (rule digit_char_props(1))
  show "is_digit (digit_char (n mod 10))" using b by (rule digit_char_props(1))
  show "decimal_value [digit_char (n div 10), digit_char (n mod 10)] = n"
    using digit_char_props(2)[OF a] digit_char_props(2)[OF b]
    by (simp add: decimal_value_def)
qed

text \<open>
  formatDuration_rounds_and_pads. For a whole number \<open>ms\<close> of milliseconds with \<open>0 \<le> ms < 2 ^ 51\<close>,
  \<open>formatDuration\<close> takes the whole number of minutes \<open>m\<close> nearest to it (at most half
  a minute away, a tie going up) and returns the decimal numeral of \<open>m\<close> followed by
  \<open>min\<close> when \<open>m\<close> is below 60, and else the decimal numeral of the hours, \<open>hr\<close>, a
  space, the two decimal digits of the remaining minutes and \<open>min\<close>. So 125000 gives
  \<open>2min\<close> and 3660000 gives \<open>1hr 01min\<close>. For larger amounts the rounding of the two
  divisions can reach the next minute.
\<close>

theorem formatDuration_rounds_and_pads:
  "(0 \<le> ms \<and> ms < 2 ^ 51 \<longrightarrow>
     (let m = (ms + 30000) div 60000 in
        2 * \<bar>ms - 60000 * m\<bar> \<le> 60000
        \<and> (m < 60 \<longrightarrow>
             (\<exists>ds. formatDuration (of_int ms) = ds @ ''min'' \<and> is_decimal_of ds (nat m)))
        \<and> (60 \<le> m \<longrightarrow>
             (\<exists>hs d1 d0. formatDuration (of_int ms) = hs @ ''hr '' @ [d1, d0] @ ''min''
                \<and> is_decimal_of hs (nat (m div 60))
                \<and> is_digit d1 \<and> is_digit d0
                \<and> decimal_value [d1, d0] = nat (m mod 60)))))
   \<and> formatDuration 125000 = ''2min''
   \<and> formatDuration 3660000 = ''1hr 01min''"
proof (intro conjI impI)
  assume a: "0 \<le> ms \<and> ms < 2 ^ 51"
  then have a1: "0 \<le> ms" and a2: "ms < 2 ^ 51" by simp_all
  define m where "m = (ms + 30000) div 60000"
  define r where "r = (ms + 30000) mod 60000"
  have "ms + 30000 = 60000 * m + r"
    unfolding m_def r_def by simp
  moreover have "0 \<le> r" "r < 60000"
    unfolding r_def by simp_all
  ultimately have near: "2 * \<bar>ms - 60000 * m\<bar> \<le> 60000"
    by (simp add: abs_le_iff)
  have m0: "0 \<le> m"
    unfolding m_def using a1 by simp
  have fmt: "formatDuration (of_int ms) =
      (if m \<ge> 60 then
        toString (m div 60) @ ''hr '' @ padStart 2 (CHR ''0'') (toString (m mod 60)) @ ''min''
       else toString m @ ''min'')"
    unfolding formatDuration_int[OF a1 a2] m_def Let_def ..
  have short: "m < 60 \<longrightarrow>
      (\<exists>ds. formatDuration (of_int ms) = ds @ ''min'' \<and> is_decimal_of ds (nat m))"
  proof
    assume lt: "m < 60"
    have "formatDuration (of_int ms) = digits (nat m) @ ''min''"
      using lt m0 by (simp add: fmt toString_def)
    then show "\<exists>ds. formatDuration (of_int ms) = ds @ ''min'' \<and> is_decimal_of ds (nat m)"
      using digits_decimal by blast
  qed
  have long: "60 \<le> m \<longrightarrow>
      (\<exists>hs d1 d0. formatDuration (of_int ms) = hs @ ''hr '' @ [d1, d0] @ ''min''
                \<and> is_decimal_of hs (nat (m div 60))
                \<and> is_digit d1 \<and> is_digit d0
                \<and> decimal_value [d1, d0] = nat (m mod 60))"
  proof
    assume ge: "60 \<le> m"
    have h: "0 \<le> m div 60" using m0 by simp
    have mr: "0 \<le> m mod 60" "m mod 60 < 60" by simp_all
    have n60: "nat (m mod 60) < 60" using mr by simp
    have t: "toString (m div 60) = digits (nat (m div 60))"
      using h by (simp add: toString_def)
    have "formatDuration (of_int ms) = digits (nat (m div 60)) @ ''hr ''
        @ [digit_char (nat (m mod 60) div 10), digit_char (nat (m mod 60) mod 10)] @ ''min''"
      using ge by (simp add: fmt pad_minutes[OF mr] t)
    then show "\<exists>hs d1 d0. formatDuration (of_int ms) = hs @ ''hr '' @ [d1, d0] @ ''min''
                \<and> is_decimal_of hs (nat (m div 60))
                \<and> is_digit d1 \<and> is_digit d0
                \<and> decimal_value [d1, d0] = nat (m mod 60)"
      using digits_decimal two_digits_value[OF n60] by blast
  qed
  from near short long show "let m = (ms + 30000) div 60000 in
        2 * \<bar>ms - 60000 * m\<bar> \<le> 60000
        \<and> (m < 60 \<longrightarrow>
             (\<exists>ds. formatDuration (of_int ms) = ds @ ''min'' \<and> is_decimal_of ds (nat m)))
        \<and> (60 \<le> m \<longrightarrow>
             (\<exists>hs d1 d0. formatDuration (of_int ms) = hs @ ''hr '' @ [d1, d0] @ ''min''
                \<and> is_decimal_of hs (nat (m div 60))
                \<and> is_digit d1 \<and> is_digit d0
                \<and> decimal_value [d1, d0] = nat (m mod 60)))"
    unfolding m_def Let_def by simp
next
  have "formatDuration (of_int 125000) = ''2min''"
    by (subst formatDuration_int) (simp_all add: toString_def digits_small digit_char_def)
  then show "formatDuration 125000 = ''2min''" by simp
next
  have "formatDuration (of_int 3660000) = ''1hr 01min''"
    by (subst formatDuration_int)
       (simp_all add: toString_def digits_small digit_char_def padStart_def)
  then show "formatDuration 3660000 = ''1hr 01min''" by simp
qed

theorem formatDuration_rounds_and_pads_witness:
  "(0::int) \<le> 4500000 \<and> (4500000::int) < 2 ^ 51
   \<and> (\<exists>hs d1 d0. formatDuration 4500000 = hs @ ''hr '' @ [d1, d0] @ ''min''
         \<and> is_decimal_of hs 1 \<and> is_digit d1 \<and> is_digit d0 \<and> decimal_value [d1, d0] = 15)
   \<and> (\<exists>ds. formatDuration 89999 = ds @ ''min'' \<and> is_decimal_of ds 1)
   \<and> (\<exists>ds. formatDuration 90000 = ds @ ''min'' \<and> is_decimal_of ds 2)"
  using formatDuration_rounds_and_pads [of 4500000] formatDuration_rounds_and_pads [of 89999] formatDuration_rounds_and_pads [of 90000]
  by simp

text \<open>
  The amount 281871148585469984 is a double. Its quotient by 1000 rounds up to
  281871148585470, whose quotient by 60 is exactly 4697852476424.5.
\<close>

lemma large_first_division: "to_double (281871148585469984 / 1000) = 281871148585470"
proof -
  have "to_double (281871148585469984 / 1000)
          = of_int (round_half_even ((281871148585469984 / 1000) / 2 powi (48 - 52))) * 2 powi (48 - 52)"
    by (rule to_double_eval) simp_all
  also have "round_half_even ((281871148585469984 / 1000) / 2 powi (48 - 52)) = 4509938377367520"
    by (simp add: round_half_even_def Let_def)
  finally show ?thesis by simp
qed

lemma large_second_division: "to_double (281871148585470 / 60) = 9395704952849 / 2"
proof -
  have "to_double (of_int 9395704952849 / 2 ^ 1) = of_int 9395704952849 / 2 ^ 1"
    by (rule to_double_exact) simp_all
  then show ?thesis by simp
qed

lemma large_hours: "to_double (of_int 4697852476425 / 60) = 313190165095 / 4"
proof -
  have "to_double (of_int 313190165095 / 2 ^ 2) = of_int 313190165095 / 2 ^ 2"
    by (rule to_double_exact) simp_all
  then show ?thesis by simp
qed

lemma large_is_double: "to_double 281871148585469984 = 281871148585469984"
proof -
  have "to_double 281871148585469984
          = of_int (round_half_even (281871148585469984 / 2 powi (57 - 52))) * 2 powi (57 - 52)"
    by (rule to_double_eval) simp_all
  also have "round_half_even (281871148585469984 / 2 powi (57 - 52)) = 8808473393295937"
    by (simp add: round_half_even_def Let_def)
  finally show ?thesis by simp
qed

lemma large_minutes:
  "Math_round (to_double (to_double (281871148585469984 / 1000) / 60)) = 4697852476425"
  unfolding large_first_division large_second_division Math_round_def by simp

lemma digits_large: "digits 78297541273 = ''78297541273''"
  by (simp add: digits.simps digit_char_def)

text \<open>
  The claim as first stated, for every amount that is not negative, fails at
  281871148585469984 milliseconds: the nearest minute is 4697852476424, which is
  78297541273 hours and 44 minutes, and the result says 45 minutes.
\<close>

theorem formatDuration_large_amount_rounds_up:
  "to_double 281871148585469984 = 281871148585469984
   \<and> formatDuration 281871148585469984 = ''78297541273hr 45min''
   \<and> 2 * \<bar>281871148585469984 - 60000 * (4697852476424::int)\<bar> \<le> 60000
   \<and> (4697852476424::int) div 60 = 78297541273 \<and> (4697852476424::int) mod 60 = 44"
proof -
  have hours: "Math_floor (to_double (of_int 4697852476425 / 60)) = 78297541273"
    unfolding large_hours Math_floor_def by simp
  have minutes: "(4697852476425::int) mod 60 = 45"
    by simp
  have hs: "toString 78297541273 = ''78297541273''"
    by (simp add: toString_def digits_large)
  have ms: "padStart 2 (CHR ''0'') (toString 45) = ''45''"
    by (simp add: padStart_def toString_def digits_two digit_char_def)
  have "formatDuration 281871148585469984 = ''78297541273hr 45min''"
    unfolding formatDuration_def large_minutes Let_def hours minutes hs ms by simp
  then show ?thesis
    by (simp add: large_is_double)
qed

subsection \<open>Sample values\<close>

lemmas replay_defs =
  findCurrentOutages_def sort_checks_def at_time_def svc_def process_check_def
  process_service_def Let_def map_has_def map_get_def map_delete_def set_durations_def
  error_or_unknown_def

lemmas decide_defs =
  toAlert_def newOutages_def longOutages_def remove_resolved_def obj_get_def obj_keys_def
  obj_delete_def map_values_def NOTIFICATION_THRESHOLD_def object_prototype_keys_def map_has_def

lemma sample_outages:
  "findCurrentOutages sample_log 1860000 =
     [(''svcA'', \<lparr>service = ''svcA'', startTime = 300000, duration = 1560000,
                  error_text = ''timeout'', isOngoing = True\<rparr>)]"
  by (simp add: sample_log_def replay_defs)

lemma two_down_outages:
  "findCurrentOutages two_down 1200000 =
     [(''b'', \<lparr>service = ''b'', startTime = 0, duration = 1200000,
               error_text = ''Unknown error'', isOngoing = True\<rparr>),
      (''a'', \<lparr>service = ''a'', startTime = 0, duration = 1200000,
               error_text = ''Unknown error'', isOngoing = True\<rparr>)]"
  by (simp add: two_down_def replay_defs)

lemma truthy_obj_get:
  "truthy (obj_get obj k) \<longleftrightarrow>
     (case map_of obj k of Some v \<Rightarrow> v \<noteq> 0 | None \<Rightarrow> k \<in> set object_prototype_keys)"
  by (simp add: obj_get_def split: option.splits)

lemma key_iff: "k \<in> set (obj_keys obj) \<longleftrightarrow> map_of obj k \<noteq> None"
  by (simp add: obj_keys_def map_of_eq_None_iff)

lemma remove_resolved_nonzero:
  "list_all (\<lambda>p. snd p \<noteq> 0) reportedOutages \<Longrightarrow>
     map_of (remove_resolved reportedOutages currentOutages) k \<noteq> Some 0"
proof
  assume a: "list_all (\<lambda>p. snd p \<noteq> 0) reportedOutages"
    and b: "map_of (remove_resolved reportedOutages currentOutages) k = Some 0"
  from b have "(k, 0) \<in> set (remove_resolved reportedOutages currentOutages)"
    by (rule map_of_SomeD)
  then have "(k, 0) \<in> set reportedOutages"
    by (simp add: remove_resolved_filter)
  with a show False
    by (auto simp: list_all_iff)
qed

subsection \<open>Which outages are alerted\<close>

text \<open>
  C2. When no timestamp of the ledger is 0 and no service is named like a member of
  \<open>Object.prototype\<close>, the outages to alert are exactly the outages of the map, in the
  insertion order of the map, whose duration is at least the threshold (the boundary
  included) and whose service is not a key of the cleaned ledger. In particular no
  service that is a key of the cleaned ledger is alerted. The list is not sorted by
  service name.
\<close>

theorem toAlert_threshold_and_dedupe:
  "list_all (\<lambda>p. snd p \<noteq> 0) reportedOutages \<Longrightarrow>
   list_all (\<lambda>outage. service outage \<notin> set object_prototype_keys) (map_values currentOutages) \<Longrightarrow>
     toAlert reportedOutages currentOutages
       = filter (\<lambda>outage. duration outage \<ge> NOTIFICATION_THRESHOLD
                  \<and> service outage \<notin> set (obj_keys (remove_resolved reportedOutages currentOutages)))
           (map_values currentOutages)
     \<and> (\<forall>outage \<in> set (toAlert reportedOutages currentOutages).
          service outage \<notin> set (obj_keys (remove_resolved reportedOutages currentOutages)))"
proof -
  assume nz: "list_all (\<lambda>p. snd p \<noteq> 0) reportedOutages"
    and np: "list_all (\<lambda>outage. service outage \<notin> set object_prototype_keys) (map_values currentOutages)"
  let ?cleaned = "remove_resolved reportedOutages currentOutages"
  have falsy: "\<not> truthy (obj_get ?cleaned (service outage)) \<longleftrightarrow> service outage \<notin> set (obj_keys ?cleaned)"
    if "outage \<in> set (map_values currentOutages)" for outage
  proof -
    from np that have "service outage \<notin> set object_prototype_keys"
      by (simp add: list_all_iff)
    moreover have "map_of ?cleaned (service outage) \<noteq> Some 0"
      using nz by (rule remove_resolved_nonzero)
    ultimately show ?thesis
      by (auto simp: truthy_obj_get key_iff split: option.splits)
  qed
  have eq: "toAlert reportedOutages currentOutages
       = filter (\<lambda>outage. duration outage \<ge> NOTIFICATION_THRESHOLD
                  \<and> service outage \<notin> set (obj_keys ?cleaned))
           (map_values currentOutages)"
    unfolding toAlert_def newOutages_def longOutages_def filter_filter
    by (rule filter_cong) (auto simp: falsy)
  then show ?thesis
    by simp
qed

theorem toAlert_threshold_and_dedupe_witness:
  "list_all (\<lambda>p. snd p \<noteq> 0) [(''svcOld'', 1000::int)]
   \<and> toAlert [(''svcOld'', 1000)] (findCurrentOutages sample_log 1860000)
       = [\<lparr>service = ''svcA'', startTime = 300000, duration = 1560000,
            error_text = ''timeout'', isOngoing = True\<rparr>]
   \<and> toAlert [(''svcA'', 1500000)] (findCurrentOutages sample_log 1860000) = []"
  using toAlert_threshold_and_dedupe [of "[(''svcOld'', 1000)]" "findCurrentOutages sample_log 1860000"]
    toAlert_threshold_and_dedupe [of "[(''svcA'', 1500000)]" "findCurrentOutages sample_log 1860000"]
  by (simp add: sample_outages decide_defs)

text \<open>
  The claim as first stated, with a list sorted by service name, fails when \<open>b\<close>
  enters the outage map before \<open>a\<close>: the list is \<open>b\<close>, \<open>a\<close>.
\<close>

theorem toAlert_not_sorted_by_name:
  "map service (toAlert [] (findCurrentOutages two_down 1200000)) = [''b'', ''a'']
   \<and> \<not> sorted (map service (toAlert [] (findCurrentOutages two_down 1200000)))"
  by (simp add: two_down_outages decide_defs)

text \<open>
  C9. A service whose entry in the cleaned ledger stores the timestamp 0 is treated as
  not reported: its outage is alerted when the duration reaches the threshold.
\<close>

theorem zero_timestamp_counts_as_unreported:
  "map_of (remove_resolved reportedOutages currentOutages) s = Some 0 \<Longrightarrow>
   outage \<in> set (map_values currentOutages) \<Longrightarrow>
   service outage = s \<Longrightarrow>
   duration outage \<ge> NOTIFICATION_THRESHOLD \<Longrightarrow>
     outage \<in> set (toAlert reportedOutages currentOutages)"
  by (simp add: toAlert_def newOutages_def longOutages_def obj_get_def)

theorem zero_timestamp_counts_as_unreported_witness:
  "map_of (remove_resolved [(''svcA'', 0)] (findCurrentOutages sample_log 1860000)) ''svcA'' = Some 0
   \<and> toAlert [(''svcA'', 0)] (findCurrentOutages sample_log 1860000)
       = [\<lparr>service = ''svcA'', startTime = 300000, duration = 1560000,
            error_text = ''timeout'', isOngoing = True\<rparr>]"
  using zero_timestamp_counts_as_unreported [of "[(''svcA'', 0)]" "findCurrentOutages sample_log 1860000" "''svcA''"
      "\<lparr>service = ''svcA'', startTime = 300000, duration = 1560000,
            error_text = ''timeout'', isOngoing = True\<rparr>"]
  by (simp add: sample_outages decide_defs)

subsection \<open>The run\<close>

text \<open>
  C10. When the log is read and there is nothing to alert, because no outage reaches the
  threshold or because every long outage is in the cleaned ledger already, the run
  does not call the webhook, saves the cleaned ledger and ends with status 0.
\<close>

theorem nothing_to_alert_saves_and_succeeds:
  "readStatusChecks env = Some statusChecks \<Longrightarrow>
   toAlert (loadReportedOutages env) (findCurrentOutages statusChecks (new_Date env)) = [] \<Longrightarrow>
     sendSlackNotification env =
       \<lparr>posted = None,
        saved = Some (remove_resolved (loadReportedOutages env)
                        (findCurrentOutages statusChecks (new_Date env))),
        exit_status = 0\<rparr>"
  by (simp add: sendSlackNotification_def toAlert_def Let_def)

theorem nothing_to_alert_saves_and_succeeds_witness:
  "sendSlackNotification reported_env =
     \<lparr>posted = None, saved = Some [(''svcA'', 1500000)], exit_status = 0\<rparr>"
proof -
  have r: "readStatusChecks reported_env = Some sample_log"
    by (simp add: reported_env_def sample_env_def)
  have t: "toAlert (loadReportedOutages reported_env)
             (findCurrentOutages sample_log (new_Date reported_env)) = []"
    by (simp add: reported_env_def sample_env_def sample_outages decide_defs)
  from nothing_to_alert_saves_and_succeeds [OF r t] show ?thesis
    by (simp add: reported_env_def sample_env_def sample_outages decide_defs)
qed

lemma save_skipped_exactly_on_exit_1:
  "saved (sendSlackNotification env) = None \<longleftrightarrow> exit_status (sendSlackNotification env) = 1"
  by (simp add: sendSlackNotification_def Let_def split: option.splits post_result.splits)

text \<open>
  C7. The claim is that after a failed delivery no service of the alert is stamped, the
  cleaned ledger is still saved, and the run exits with a status that is not 0. The
  script does not save: on a run where the ledger holds the resolved \<open>svcOld\<close>, the
  outage of \<open>svcA\<close> is 26 minutes old and \<open>ky.post\<close> rejects, the webhook is called,
  the run exits with status 1 and \<open>saveReportedOutages\<close> is not called, so the ledger
  file keeps \<open>svcOld\<close> although the cleaned ledger is empty. Every path of the
  script that does not exit with status 1 saves the ledger.
\<close>

theorem rejected_delivery_exits_without_saving:
  "posted (sendSlackNotification (sample_env Rejected)) \<noteq> None
   \<and> saved (sendSlackNotification (sample_env Rejected)) = None
   \<and> exit_status (sendSlackNotification (sample_env Rejected)) = 1
   \<and> loadReportedOutages (sample_env Rejected) = [(''svcOld'', 1000)]
   \<and> remove_resolved [(''svcOld'', 1000)] (findCurrentOutages sample_log 1860000) = []"
  by (simp add: sendSlackNotification_def sample_env_def sample_outages decide_defs Let_def)

end
